theory Spec2Isabelle
  imports
    Complex_Main
    "HOL-Library.Char_ord"
    "HOL-Library.List_Lexorder"
    "HOL-Library.Multiset"
    "HOL-Library.Sublist"
begin

section \<open>Numbers of the data frame\<close>

text \<open>
  Every numeric cell of the pandas frame in \<^verbatim>\<open>app2.py\<close> is a float64. In the
  arithmetic of this section a finite float is idealised as an exact real (\<open>Fin\<close>):
  rounding, overflow and the sign of zero are outside it. The section on float64 rounding
  further down puts the rounding to nearest on top of it, for the property of the
  simulation that depends on it. The three special values that the unguarded divisions of
  the script can produce are kept apart, with the IEEE rules for them: \<open>PInf\<close>,
  \<open>NInf\<close> and \<open>NaN\<close> (pandas also uses \<open>NaN\<close> for a missing cell). A zero
  divisor is read as \<open>+0\<close>.
\<close>

datatype fval = Fin real | PInf | NInf | NaN

definition isna :: "fval \<Rightarrow> bool" where
  "isna v = (v = NaN)"

fun fneg :: "fval \<Rightarrow> fval" where
  "fneg (Fin a) = Fin (- a)"
| "fneg PInf = NInf"
| "fneg NInf = PInf"
| "fneg NaN = NaN"

fun fadd :: "fval \<Rightarrow> fval \<Rightarrow> fval" where
  "fadd (Fin a) (Fin b) = Fin (a + b)"
| "fadd (Fin a) PInf = PInf"
| "fadd (Fin a) NInf = NInf"
| "fadd PInf (Fin b) = PInf"
| "fadd NInf (Fin b) = NInf"
| "fadd PInf PInf = PInf"
| "fadd NInf NInf = NInf"
| "fadd PInf NInf = NaN"
| "fadd NInf PInf = NaN"
| "fadd NaN v = NaN"
| "fadd v NaN = NaN"

definition fsub :: "fval \<Rightarrow> fval \<Rightarrow> fval" where
  "fsub a b = fadd a (fneg b)"

text \<open>An infinity times a finite factor: the sign of the factor decides, and zero gives NaN.\<close>

definition inf_times :: "fval \<Rightarrow> real \<Rightarrow> fval" where
  "inf_times i a = (if a = 0 then NaN else if 0 < a then i else fneg i)"

fun fmul :: "fval \<Rightarrow> fval \<Rightarrow> fval" where
  "fmul (Fin a) (Fin b) = Fin (a * b)"
| "fmul (Fin a) PInf = inf_times PInf a"
| "fmul (Fin a) NInf = inf_times NInf a"
| "fmul PInf (Fin b) = inf_times PInf b"
| "fmul NInf (Fin b) = inf_times NInf b"
| "fmul PInf PInf = PInf"
| "fmul NInf NInf = PInf"
| "fmul PInf NInf = NInf"
| "fmul NInf PInf = NInf"
| "fmul NaN v = NaN"
| "fmul v NaN = NaN"

text \<open>
  Division of columns never raises in pandas: a finite value over zero is an infinity of
  the value's sign, and zero over zero is NaN.
\<close>

fun fdiv :: "fval \<Rightarrow> fval \<Rightarrow> fval" where
  "fdiv (Fin a) (Fin b) =
     (if b \<noteq> 0 then Fin (a / b)
      else if a = 0 then NaN
      else if 0 < a then PInf else NInf)"
| "fdiv (Fin a) PInf = Fin 0"
| "fdiv (Fin a) NInf = Fin 0"
| "fdiv PInf (Fin b) = (if 0 \<le> b then PInf else NInf)"
| "fdiv NInf (Fin b) = (if 0 \<le> b then NInf else PInf)"
| "fdiv PInf PInf = NaN"
| "fdiv PInf NInf = NaN"
| "fdiv NInf PInf = NaN"
| "fdiv NInf NInf = NaN"
| "fdiv NaN v = NaN"
| "fdiv v NaN = NaN"

section \<open>The loaded table and the Filter Stage\<close>

text \<open>
  One row of \<^verbatim>\<open>Team Comparison.csv\<close> after \<^verbatim>\<open>load_data\<close> has normalised the
  column names. The \<open>role\<close> cell is text or null.
\<close>

record player_row =
  country :: string
  role :: "string option"
  player_name :: string
  batting_sr :: fval
  batting_average :: fval
  wickets :: fval
  economy :: fval

text \<open>\<^verbatim>\<open>filtered_df = df[df["country"].isin(teams)]\<close>\<close>

definition filtered_df :: "string list \<Rightarrow> player_row list \<Rightarrow> player_row list" where
  "filtered_df teams df = filter (\<lambda>r. country r \<in> set teams) df"

section \<open>Feature engineering\<close>

text \<open>Lines 55 to 60 add three columns to every row of the filtered frame.\<close>

record metric_row = player_row +
  batting_impact :: fval
  bowling_impact :: fval
  allrounder_index :: fval

definition add_metrics :: "player_row \<Rightarrow> metric_row" where
  "add_metrics r =
     (let bi = fmul (batting_sr r) (batting_average r);
          bo = fmul (wickets r) (fdiv (Fin 1) (economy r));
          ai = fadd (fmul (Fin 0.6) bi) (fmul (Fin 0.4) bo)
      in \<lparr>country = country r, role = role r, player_name = player_name r,
          batting_sr = batting_sr r, batting_average = batting_average r,
          wickets = wickets r, economy = economy r,
          batting_impact = bi, bowling_impact = bo, allrounder_index = ai\<rparr>)"

definition feature_engineering :: "player_row list \<Rightarrow> metric_row list" where
  "feature_engineering fdf = map add_metrics fdf"

section \<open>Pressure adjustment\<close>

text \<open>\<^verbatim>\<open>pressure_adjustment(strength, overs_left)\<close>, lines 104 to 109.\<close>

definition pressure_adjustment :: "fval \<Rightarrow> int \<Rightarrow> fval" where
  "pressure_adjustment strength overs_left =
     (if overs_left \<le> 5 then fmul strength (Fin 1.15)
      else if overs_left \<le> 10 then fmul strength (Fin 1.05)
      else strength)"

section \<open>Role classification\<close>

text \<open>
  \<^verbatim>\<open>filtered_df["role"].str.lower().str.contains("all", na=False)\<close>: the mask of
  lines 152 and 207. Strings are byte lists; \<open>str_lower\<close> maps the ASCII capitals to
  their small letters and leaves every other byte alone. The pattern has no regular
  expression operator, so the search is for the literal text. A null role gives a null
  cell after \<^verbatim>\<open>.str.lower()\<close>, which \<^verbatim>\<open>na=False\<close> turns into \<open>False\<close>.
\<close>

definition is_ascii_upper :: "char \<Rightarrow> bool" where
  "is_ascii_upper c = (65 \<le> (of_char c :: nat) \<and> (of_char c :: nat) \<le> 90)"

text \<open>
  The small letter of an ASCII capital is 32 code points above it. Bit 5 (of value 32) is
  clear in every code from 65 to 90, so adding 32 is setting that bit.
\<close>

definition lower_char :: "char \<Rightarrow> char" where
  "lower_char c =
     (if is_ascii_upper c
      then (case c of Char b0 b1 b2 b3 b4 b5 b6 b7 \<Rightarrow> Char b0 b1 b2 b3 b4 True b6 b7)
      else c)"

definition str_lower :: "string \<Rightarrow> string" where
  "str_lower s = map lower_char s"

fun str_contains :: "string \<Rightarrow> string \<Rightarrow> bool" where
  "str_contains [] pat = (pat = [])"
| "str_contains (c # cs) pat = (take (length pat) (c # cs) = pat \<or> str_contains cs pat)"

definition is_allrounder :: "metric_row \<Rightarrow> bool" where
  "is_allrounder r =
     (case role r of None \<Rightarrow> False | Some s \<Rightarrow> str_contains (str_lower s) ''all'')"

definition ar_df :: "metric_row list \<Rightarrow> metric_row list" where
  "ar_df fdf = filter is_allrounder fdf"

section \<open>Aggregation\<close>

text \<open>
  \<^verbatim>\<open>groupby("country")\<close> makes one group per distinct country, in ascending order of
  the key. \<^verbatim>\<open>.mean()\<close> of a group skips the NaN cells and is NaN when nothing is left.
\<close>

definition group_keys :: "metric_row list \<Rightarrow> string list" where
  "group_keys df = sort (remdups (map country df))"

definition mean :: "fval list \<Rightarrow> fval" where
  "mean vs =
     (let xs = filter (\<lambda>v. \<not> isna v) vs
      in if xs = [] then NaN else fdiv (foldl fadd (Fin 0) xs) (Fin (real (length xs))))"

definition group_mean :: "(metric_row \<Rightarrow> fval) \<Rightarrow> metric_row list \<Rightarrow> string \<Rightarrow> fval" where
  "group_mean col df c = mean (map col (filter (\<lambda>r. country r = c) df))"

definition groupby_mean :: "(metric_row \<Rightarrow> fval) \<Rightarrow> metric_row list \<Rightarrow> (string \<times> fval) list" where
  "groupby_mean col df = map (\<lambda>c. (c, group_mean col df c)) (group_keys df)"

text \<open>Lines 145 to 149: the base table, with the two mean columns.\<close>

definition team_strength_base :: "metric_row list \<Rightarrow> (string \<times> fval \<times> fval) list" where
  "team_strength_base fdf =
     map (\<lambda>c. (c, group_mean batting_impact fdf c, group_mean bowling_impact fdf c))
       (group_keys fdf)"

text \<open>Lines 151 to 156: the mean all-rounder index of the all-rounder rows of each team.\<close>

definition ar_team :: "metric_row list \<Rightarrow> (string \<times> fval) list" where
  "ar_team fdf = groupby_mean allrounder_index (ar_df fdf)"

text \<open>
  Line 158: \<^verbatim>\<open>merge(ar_team, on="country", how="left")\<close> keeps every row of the base
  table. The right table is a groupby result and has one row per country, so a left
  row meets at most one right row; a left row that meets none gets a NaN cell. Then
  \<^verbatim>\<open>fillna(0)\<close> replaces the NaN cells of every column by 0.
\<close>

definition merge_left ::
  "(string \<times> fval \<times> fval) list \<Rightarrow> (string \<times> fval) list \<Rightarrow> (string \<times> fval \<times> fval \<times> fval) list" where
  "merge_left base ar =
     map (\<lambda>(c, bi, bo). (c, bi, bo, (case map_of ar c of None \<Rightarrow> NaN | Some ai \<Rightarrow> ai))) base"

definition fillna :: "fval \<Rightarrow> fval \<Rightarrow> fval" where
  "fillna d v = (if isna v then d else v)"

definition fillna_rows ::
  "fval \<Rightarrow> (string \<times> fval \<times> fval \<times> fval) list \<Rightarrow> (string \<times> fval \<times> fval \<times> fval) list" where
  "fillna_rows d rows = map (\<lambda>(c, bi, bo, ai). (c, fillna d bi, fillna d bo, fillna d ai)) rows"

text \<open>The finished TeamAggregate row: lines 160 to 164 add the power index.\<close>

record team_row =
  t_country :: string
  t_batting_impact :: fval
  t_bowling_impact :: fval
  t_allrounder_index :: fval
  power_index :: fval

definition add_power_index :: "string \<times> fval \<times> fval \<times> fval \<Rightarrow> team_row" where
  "add_power_index = (\<lambda>(c, bi, bo, ai).
     \<lparr>t_country = c, t_batting_impact = bi, t_bowling_impact = bo, t_allrounder_index = ai,
      power_index = fadd (fadd (fmul (Fin 0.5) bi) (fmul (Fin 0.3) bo)) (fmul (Fin 0.2) ai)\<rparr>)"

definition team_strength :: "metric_row list \<Rightarrow> team_row list" where
  "team_strength fdf =
     map add_power_index
       (fillna_rows (Fin 0) (merge_left (team_strength_base fdf) (ar_team fdf)))"

text \<open>
  The row that \<open>team_strength\<close> builds for the team \<open>c\<close>, written in one piece;
  \<open>team_strength_map\<close> below shows that the table is made of these rows.
\<close>

definition team_of :: "metric_row list \<Rightarrow> string \<Rightarrow> team_row" where
  "team_of fdf c = add_power_index
     (c, fillna (Fin 0) (group_mean batting_impact fdf c),
         fillna (Fin 0) (group_mean bowling_impact fdf c),
         fillna (Fin 0) (case map_of (ar_team fdf) c of None \<Rightarrow> NaN | Some ai \<Rightarrow> ai))"

section \<open>Ranking and the best team\<close>

datatype py_error = IndexError

text \<open>\<^verbatim>\<open>.iloc[0]\<close> and \<^verbatim>\<open>.values[0]\<close> raise IndexError on an empty table.\<close>

definition iloc0 :: "'a list \<Rightarrow> py_error + 'a" where
  "iloc0 xs = (case xs of [] \<Rightarrow> Inl IndexError | x # _ \<Rightarrow> Inr x)"

text \<open>The comparison \<open>a \<le> b\<close> of two floats; it is false as soon as one of them is NaN.\<close>

fun fle :: "fval \<Rightarrow> fval \<Rightarrow> bool" where
  "fle NaN v = False"
| "fle v NaN = False"
| "fle NInf v = True"
| "fle v PInf = True"
| "fle (Fin a) (Fin b) = (a \<le> b)"
| "fle PInf v = False"
| "fle (Fin a) NInf = False"

text \<open>
  \<^verbatim>\<open>sort_values(col, ascending=False)\<close> is called with the default
  \<^verbatim>\<open>kind="quicksort"\<close> and \<^verbatim>\<open>na_position="last"\<close>. The functions of the
  script take the sort as a parameter \<open>sort_values\<close>; the algorithm the library runs
  for such a call is \<open>nargsort_desc\<close>, further down. \<open>sorts_descending\<close> says that
  a result is a descending ranking: it has the rows of the input, the keys do not increase,
  and the rows with a NaN key come last. \<open>desc_before a b\<close> says that a row of key
  \<open>a\<close> may stand before a row of key \<open>b\<close>.
\<close>

definition desc_before :: "fval \<Rightarrow> fval \<Rightarrow> bool" where
  "desc_before a b = (isna b \<or> fle b a)"

definition sorts_descending :: "('a \<Rightarrow> fval) \<Rightarrow> 'a list \<Rightarrow> 'a list \<Rightarrow> bool" where
  "sorts_descending key xs ys =
     (mset ys = mset xs \<and> sorted_wrt (\<lambda>a b. desc_before (key a) (key b)) ys)"

text \<open>Line 166: \<^verbatim>\<open>team_strength.sort_values("power_index", ascending=False).iloc[0]\<close>\<close>

definition best_team ::
  "((team_row \<Rightarrow> fval) \<Rightarrow> team_row list \<Rightarrow> team_row list) \<Rightarrow> team_row list \<Rightarrow> py_error + team_row" where
  "best_team sort_values ts = iloc0 (sort_values power_index ts)"

text \<open>
  \<^verbatim>\<open>team_bar_chart(df, metric, title, color)\<close>, lines 71 to 82, without the drawing:
  the bars in their order, and the team whose bar is outlined.
\<close>

definition team_bar_chart ::
  "((string \<times> fval \<Rightarrow> fval) \<Rightarrow> (string \<times> fval) list \<Rightarrow> (string \<times> fval) list) \<Rightarrow>
     metric_row list \<Rightarrow> (metric_row \<Rightarrow> fval) \<Rightarrow> py_error + ((string \<times> fval) list \<times> string)" where
  "team_bar_chart sort_values df metric =
     (let team_df = sort_values snd (groupby_mean metric df)
      in case iloc0 team_df of
           Inl e \<Rightarrow> Inl e
         | Inr row \<Rightarrow> Inr (team_df, fst row))"

text \<open>The Overview tab, lines 145 to 166, from the team selection and the loaded table.\<close>

definition overview ::
  "((team_row \<Rightarrow> fval) \<Rightarrow> team_row list \<Rightarrow> team_row list) \<Rightarrow> string list \<Rightarrow> player_row list \<Rightarrow>
     py_error + (team_row list \<times> team_row)" where
  "overview sort_values teams df =
     (let ts = team_strength (feature_engineering (filtered_df teams df))
      in case best_team sort_values ts of
           Inl e \<Rightarrow> Inl e
         | Inr b \<Rightarrow> Inr (ts, b))"

text \<open>The comparison \<open>a < b\<close> of two floats, false as soon as one of them is NaN.\<close>

definition fless :: "fval \<Rightarrow> fval \<Rightarrow> bool" where
  "fless a b = (fle a b \<and> \<not> fle b a)"

text \<open>
  What the library runs for \<^verbatim>\<open>sort_values(..., ascending=False)\<close>. pandas
  (\<^verbatim>\<open>nargsort\<close> in \<^verbatim>\<open>pandas/core/sorting.py\<close>) sets the rows with a NaN key
  aside, reverses the other rows, argsorts them in ascending order with NumPy, reverses the
  result, and appends the NaN rows in the order of the table.

  NumPy's quicksort for an argsort (\<^verbatim>\<open>aquicksort\<close> in
  \<^verbatim>\<open>npysort/quicksort.cpp\<close>, the scalar code) partitions a segment only while it
  has more than \<^verbatim>\<open>SMALL_QUICKSORT = 16\<close> elements and finishes every segment with
  an insertion sort, so an array of at most 16 elements is sorted by the insertion sort
  alone: from left to right, each element moves left past the elements that are strictly
  greater and stops at the first one that is not. \<open>insertion_shift\<close> is that inner
  loop; it holds the sorted prefix with its last element first. The partition phase that larger arrays go through is not modelled: it is
  the parameter \<open>large_sort\<close>.
\<close>

fun insertion_shift :: "('a \<Rightarrow> fval) \<Rightarrow> 'a \<Rightarrow> 'a list \<Rightarrow> 'a list" where
  "insertion_shift key x [] = [x]"
| "insertion_shift key x (y # ys) =
     (if fless (key x) (key y) then y # insertion_shift key x ys else x # y # ys)"

definition insertion_argsort :: "('a \<Rightarrow> fval) \<Rightarrow> 'a list \<Rightarrow> 'a list" where
  "insertion_argsort key xs = rev (foldl (\<lambda>sorted x. insertion_shift key x sorted) [] xs)"

definition argsort_quicksort ::
  "(('a \<Rightarrow> fval) \<Rightarrow> 'a list \<Rightarrow> 'a list) \<Rightarrow> ('a \<Rightarrow> fval) \<Rightarrow> 'a list \<Rightarrow> 'a list" where
  "argsort_quicksort large_sort key xs =
     (if length xs \<le> 16 then insertion_argsort key xs else large_sort key xs)"

definition nargsort_desc ::
  "(('a \<Rightarrow> fval) \<Rightarrow> 'a list \<Rightarrow> 'a list) \<Rightarrow> ('a \<Rightarrow> fval) \<Rightarrow> 'a list \<Rightarrow> 'a list" where
  "nargsort_desc large_sort key xs =
     (let non_nans = filter (\<lambda>x. \<not> isna (key x)) xs;
          nans = filter (\<lambda>x. isna (key x)) xs
      in rev (argsort_quicksort large_sort key (rev non_nans)) @ nans)"

section \<open>Simulation\<close>

text \<open>
  Lines 267 and 268: \<^verbatim>\<open>team_strength.loc[team_strength["country"] == team,
  "power_index"].values[0]\<close>. The select box gives \<open>None\<close> when it has no option.
\<close>

definition lookup_power_index :: "team_row list \<Rightarrow> string option \<Rightarrow> py_error + fval" where
  "lookup_power_index ts team =
     iloc0 (map power_index (filter (\<lambda>t. Some (t_country t) = team) ts))"

text \<open>Lines 273 and 274, from the two adjusted strengths.\<close>

definition win_probabilities :: "fval \<Rightarrow> fval \<Rightarrow> fval \<times> fval" where
  "win_probabilities adj1 adj2 =
     (let prob1 = fdiv adj1 (fadd adj1 adj2);
          prob2 = fsub (Fin 1) prob1
      in (prob1, prob2))"

text \<open>Lines 270 to 274, from the two power indices and the slider.\<close>

definition match_probabilities :: "fval \<Rightarrow> fval \<Rightarrow> int \<Rightarrow> fval \<times> fval" where
  "match_probabilities s1 s2 overs_left =
     (let adj1 = pressure_adjustment s1 overs_left;
          adj2 = pressure_adjustment s2 overs_left
      in win_probabilities adj1 adj2)"

definition simulation ::
  "team_row list \<Rightarrow> string option \<Rightarrow> string option \<Rightarrow> int \<Rightarrow> py_error + (fval \<times> fval)" where
  "simulation ts team1 team2 overs_left =
     (case lookup_power_index ts team1 of
        Inl e \<Rightarrow> Inl e
      | Inr s1 \<Rightarrow>
          (case lookup_power_index ts team2 of
             Inl e \<Rightarrow> Inl e
           | Inr s2 \<Rightarrow> Inr (match_probabilities s1 s2 overs_left)))"

section \<open>Rounding to float64\<close>

text \<open>
  A float64 operation returns the exact result rounded to the nearest float64, a tie going
  to the even significand. A float64 has 53 significant bits, the lowest bit has an exponent
  of at least \<open>-1074\<close> (the subnormal numbers), and a rounded magnitude of
  \<open>2 powi 1024\<close> or more is an infinity. \<open>rne\<close> rounds a real to the nearest
  integer, ties to even. \<open>expo x\<close> is the binary exponent of a positive \<open>x\<close>, the
  \<open>e\<close> with \<open>2 powi e \<le> x < 2 powi (e + 1)\<close>, found by halving a value of at
  least 1 and doubling a value below 1.
\<close>

definition rne :: "real \<Rightarrow> int" where
  "rne x =
     (let f = \<lfloor>x\<rfloor>; d = x - of_int f
      in if d < 1 / 2 then f else if 1 / 2 < d then f + 1 else if even f then f else f + 1)"

function expo_up :: "real \<Rightarrow> int" where
  "expo_up x = (if x < 2 then 0 else expo_up (x / 2) + 1)"
  by pat_completeness auto
termination
proof (relation "measure (\<lambda>x. nat \<lfloor>x\<rfloor>)")
  show "wf (measure (\<lambda>x::real. nat \<lfloor>x\<rfloor>))" by simp
next
  fix x :: real
  assume "\<not> x < 2"
  then have "\<lfloor>x / 2\<rfloor> < \<lfloor>x\<rfloor>" "0 < \<lfloor>x\<rfloor>" by linarith+
  then show "(x / 2, x) \<in> measure (\<lambda>x. nat \<lfloor>x\<rfloor>)" by simp
qed

function expo_down :: "real \<Rightarrow> int" where
  "expo_down x = (if x \<le> 0 \<or> 1 \<le> x then 0 else expo_down (2 * x) - 1)"
  by pat_completeness auto
termination
proof (relation "measure (\<lambda>x. nat \<lceil>1 / x\<rceil>)")
  show "wf (measure (\<lambda>x::real. nat \<lceil>1 / x\<rceil>))" by simp
next
  fix x :: real
  assume "\<not> (x \<le> 0 \<or> 1 \<le> x)"
  then have x: "0 < x" "x < 1" by simp_all
  then have y: "1 < 1 / x" by simp
  have half: "1 / (2 * x) = (1 / x) / 2" by simp
  define y where "y = 1 / x"
  have "1 < y" using y by (simp add: y_def)
  then have "1 < \<lceil>y\<rceil>" by (simp add: less_ceiling_iff)
  then have two: "2 \<le> \<lceil>y\<rceil>" by simp
  have "y \<le> of_int \<lceil>y\<rceil>" by (rule le_of_int_ceiling)
  moreover from two have "(2::real) \<le> of_int \<lceil>y\<rceil>" by linarith
  ultimately have "y / 2 \<le> of_int \<lceil>y\<rceil> - 1" by linarith
  then have "y / 2 \<le> of_int (\<lceil>y\<rceil> - 1)" by simp
  then have "\<lceil>y / 2\<rceil> \<le> \<lceil>y\<rceil> - 1" by (rule ceiling_le)
  with two have "\<lceil>y / 2\<rceil> < \<lceil>y\<rceil>" "0 < \<lceil>y\<rceil>" by simp_all
  then have "\<lceil>(1 / x) / 2\<rceil> < \<lceil>1 / x\<rceil>" "0 < \<lceil>1 / x\<rceil>"
    by (simp_all add: y_def)
  then have "\<lceil>(1 / x) / 2\<rceil> < \<lceil>1 / x\<rceil>" by simp
  moreover have "0 < \<lceil>1 / x\<rceil>" by fact
  ultimately show "(2 * x, x) \<in> measure (\<lambda>x. nat \<lceil>1 / x\<rceil>)"
    by (simp add: half)
qed

declare expo_up.simps [simp del] expo_down.simps [simp del]

definition expo :: "real \<Rightarrow> int" where
  "expo x = (if 1 \<le> x then expo_up x else expo_down x)"

definition round_at :: "int \<Rightarrow> real \<Rightarrow> real" where
  "round_at q x = of_int (rne (x / 2 powi q)) * 2 powi q"

definition round64 :: "real \<Rightarrow> fval" where
  "round64 x =
     (if x = 0 then Fin 0
      else let q = max (expo \<bar>x\<bar> - 52) (- 1074);
               r = round_at q x
           in if 2 powi 1024 \<le> \<bar>r\<bar> then (if 0 < x then PInf else NInf) else Fin r)"

text \<open>
  Rounding to 53 significant bits with no bound on the exponent; \<open>round64\<close> agrees with
  it on the range of the normal numbers.
\<close>

definition round53 :: "real \<Rightarrow> real" where
  "round53 x = round_at (expo \<bar>x\<bar> - 52) x"

fun round_fval :: "fval \<Rightarrow> fval" where
  "round_fval (Fin x) = round64 x"
| "round_fval PInf = PInf"
| "round_fval NInf = NInf"
| "round_fval NaN = NaN"

text \<open>
  The four operations with the result rounded; the infinities and NaN are as before.
\<close>

definition fmul64 :: "fval \<Rightarrow> fval \<Rightarrow> fval" where
  "fmul64 a b = round_fval (fmul a b)"

definition fadd64 :: "fval \<Rightarrow> fval \<Rightarrow> fval" where
  "fadd64 a b = round_fval (fadd a b)"

definition fsub64 :: "fval \<Rightarrow> fval \<Rightarrow> fval" where
  "fsub64 a b = round_fval (fsub a b)"

definition fdiv64 :: "fval \<Rightarrow> fval \<Rightarrow> fval" where
  "fdiv64 a b = round_fval (fdiv a b)"

text \<open>
  Lines 104 to 109 and 270 to 274 in float64. The literals \<^verbatim>\<open>1.15\<close> and
  \<^verbatim>\<open>1.05\<close> are the float64 values nearest to them.
\<close>

definition pressure_adjustment64 :: "fval \<Rightarrow> int \<Rightarrow> fval" where
  "pressure_adjustment64 strength overs_left =
     (if overs_left \<le> 5 then fmul64 strength (round64 1.15)
      else if overs_left \<le> 10 then fmul64 strength (round64 1.05)
      else strength)"

definition match_probabilities64 :: "fval \<Rightarrow> fval \<Rightarrow> int \<Rightarrow> fval \<times> fval" where
  "match_probabilities64 s1 s2 overs_left =
     (let adj1 = pressure_adjustment64 s1 overs_left;
          adj2 = pressure_adjustment64 s2 overs_left;
          prob1 = fdiv64 adj1 (fadd64 adj1 adj2);
          prob2 = fsub64 (Fin 1) prob1
      in (prob1, prob2))"

section \<open>Example tables\<close>

text \<open>The row of the specification's example: strike rate 130, average 40, 10 wickets, economy 5.\<close>

definition india_row :: player_row where
  "india_row = \<lparr>country = ''India'', role = Some ''Batter'', player_name = ''P'',
     batting_sr = Fin 130, batting_average = Fin 40, wickets = Fin 10, economy = Fin 5\<rparr>"

text \<open>
  A small table of two teams. India has no all-rounder and its means are those of the
  specification's example (3000 and 2.0); Australia has one all-rounder row.
\<close>

definition india_opener :: player_row where
  "india_opener = \<lparr>country = ''India'', role = Some ''Batter'', player_name = ''A'',
     batting_sr = Fin 100, batting_average = Fin 40, wickets = Fin 10, economy = Fin 5\<rparr>"

definition india_bowler :: player_row where
  "india_bowler = \<lparr>country = ''India'', role = None, player_name = ''B'',
     batting_sr = Fin 100, batting_average = Fin 20, wickets = Fin 10, economy = Fin 5\<rparr>"

definition australia_allrounder :: player_row where
  "australia_allrounder = \<lparr>country = ''Australia'', role = Some ''Batting ALL-rounder'', player_name = ''C'',
     batting_sr = Fin 120, batting_average = Fin 30, wickets = Fin 8, economy = Fin 4\<rparr>"

definition australia_batter :: player_row where
  "australia_batter = \<lparr>country = ''Australia'', role = Some ''Batter'', player_name = ''D'',
     batting_sr = Fin 100, batting_average = Fin 20, wickets = Fin 0, economy = Fin 8\<rparr>"

text \<open>A row whose economy is zero.\<close>

definition india_zero_economy :: player_row where
  "india_zero_economy = \<lparr>country = ''India'', role = Some ''Bowler'', player_name = ''E'',
     batting_sr = Fin 50, batting_average = Fin 10, wickets = Fin 1, economy = Fin 0\<rparr>"

definition example_df :: "player_row list" where
  "example_df = [india_opener, australia_allrounder, india_bowler, australia_batter]"



text \<open>
  Two neighbouring float64 values, printed by Python as \<^verbatim>\<open>1104.6390985058058\<close> and
  \<^verbatim>\<open>1104.6390985058056\<close>: two consecutive 53-bit integers over \<open>2 ^ 42\<close>.
\<close>

definition tie_s1 :: real where "tie_s1 = 4858254133212527 / 4398046511104"

definition tie_s2 :: real where "tie_s2 = 4858254133212526 / 4398046511104"

section \<open>The Metric Engine\<close>

lemma add_metrics_cols:
  "batting_impact (add_metrics r) = fmul (batting_sr r) (batting_average r)"
  "bowling_impact (add_metrics r) = fmul (wickets r) (fdiv (Fin 1) (economy r))"
  "allrounder_index (add_metrics r) =
     fadd (fmul (Fin 0.6) (fmul (batting_sr r) (batting_average r)))
          (fmul (Fin 0.4) (fmul (wickets r) (fdiv (Fin 1) (economy r))))"
  by (simp_all add: add_metrics_def Let_def)

lemma add_metrics_raw:
  "country (add_metrics r) = country r"
  "role (add_metrics r) = role r"
  "player_name (add_metrics r) = player_name r"
  "batting_sr (add_metrics r) = batting_sr r"
  "batting_average (add_metrics r) = batting_average r"
  "wickets (add_metrics r) = wickets r"
  "economy (add_metrics r) = economy r"
  by (simp_all add: add_metrics_def Let_def)

text \<open>
  C1. Every row of the filtered table belongs to a selected team and carries
  \<open>batting_impact = batting_sr * batting_average\<close>,
  \<open>bowling_impact = wickets * (1 / economy)\<close> and
  \<open>allrounder_index = 0.6 * batting_impact + 0.4 * bowling_impact\<close>, in the arithmetic
  of the frame; on finite cells with a non-zero economy these are the products and sums of
  the reals. The example of the specification (130, 40, 10 and 5 give 5200, 2.0 and
  3120.8) is the witness.
\<close>

theorem metric_engine_rows:
  assumes "m \<in> set (feature_engineering (filtered_df teams df))"
  shows "country m \<in> set teams
     \<and> batting_impact m = fmul (batting_sr m) (batting_average m)
     \<and> bowling_impact m = fmul (wickets m) (fdiv (Fin 1) (economy m))
     \<and> allrounder_index m = fadd (fmul (Fin 0.6) (batting_impact m)) (fmul (Fin 0.4) (bowling_impact m))
     \<and> (\<forall>s a w e. batting_sr m = Fin s \<and> batting_average m = Fin a \<and> wickets m = Fin w
            \<and> economy m = Fin e \<and> e \<noteq> 0 \<longrightarrow>
          batting_impact m = Fin (s * a) \<and> bowling_impact m = Fin (w * (1 / e))
          \<and> allrounder_index m = Fin (0.6 * (s * a) + 0.4 * (w * (1 / e))))"
proof -
  from assms obtain r where r: "r \<in> set df" "country r \<in> set teams" and m: "m = add_metrics r"
    by (auto simp: feature_engineering_def filtered_df_def)
  show ?thesis
    unfolding m by (simp add: add_metrics_cols add_metrics_raw r)
qed

theorem metric_engine_rows_witness:
  "add_metrics india_row \<in> set (feature_engineering (filtered_df [''India''] [india_row]))
   \<and> batting_impact (add_metrics india_row) = Fin 5200
   \<and> bowling_impact (add_metrics india_row) = Fin 2.0
   \<and> allrounder_index (add_metrics india_row) = Fin 3120.8"
proof -
  have mem: "add_metrics india_row \<in> set (feature_engineering (filtered_df [''India''] [india_row]))"
    by (simp add: feature_engineering_def filtered_df_def india_row_def)
  have raw: "batting_sr (add_metrics india_row) = Fin 130 \<and> batting_average (add_metrics india_row) = Fin 40
     \<and> wickets (add_metrics india_row) = Fin 10 \<and> economy (add_metrics india_row) = Fin 5 \<and> (5::real) \<noteq> 0"
    by (simp add: add_metrics_raw india_row_def)
  from metric_engine_rows [OF mem] raw
  have "batting_impact (add_metrics india_row) = Fin (130 * 40)
      \<and> bowling_impact (add_metrics india_row) = Fin (10 * (1 / 5))
      \<and> allrounder_index (add_metrics india_row) = Fin (0.6 * (130 * 40) + 0.4 * (10 * (1 / 5)))"
    by blast
  with mem show ?thesis by simp
qed

section \<open>The Simulation Model\<close>

text \<open>
  C3. For a finite strength \<open>s\<close>, \<open>pressure_adjustment\<close> gives \<open>s * 1.15\<close> when at
  most 5 overs are left, \<open>s * 1.05\<close> when more than 5 and at most 10 are left, and \<open>s\<close>
  when more than 10 are left; 5 overs take the first tier, 6 the second, 11 none. This
  holds for every integer number of overs, so for those of the slider, 1 to 20.
\<close>

theorem pressure_adjustment_tiers:
  "(overs_left \<le> 5 \<longrightarrow> pressure_adjustment (Fin s) overs_left = Fin (s * 1.15))
   \<and> (5 < overs_left \<and> overs_left \<le> 10 \<longrightarrow> pressure_adjustment (Fin s) overs_left = Fin (s * 1.05))
   \<and> (10 < overs_left \<longrightarrow> pressure_adjustment (Fin s) overs_left = Fin s)
   \<and> pressure_adjustment (Fin s) 5 = Fin (s * 1.15)
   \<and> pressure_adjustment (Fin s) 6 = Fin (s * 1.05)
   \<and> pressure_adjustment (Fin s) 11 = Fin s"
  by (simp add: pressure_adjustment_def)

theorem pressure_adjustment_tiers_witness:
  "(3::int) \<le> 5 \<and> pressure_adjustment (Fin 1200) 3 = Fin 1380
   \<and> (5::int) < 8 \<and> (8::int) \<le> 10 \<and> pressure_adjustment (Fin 1200) 8 = Fin 1260
   \<and> (10::int) < 20 \<and> pressure_adjustment (Fin 1200) 20 = Fin 1200"
  using pressure_adjustment_tiers [of 3 1200] pressure_adjustment_tiers [of 8 1200]
    pressure_adjustment_tiers [of 20 1200]
  by simp



section \<open>The Simulation Model in float64\<close>

lemma rne_cases: "rne x = \<lfloor>x\<rfloor> \<or> rne x = \<lfloor>x\<rfloor> + 1"
  by (simp add: rne_def Let_def)

lemma rne_of_int: "rne (of_int n) = n"
  by (simp add: rne_def Let_def)

lemma rne_mono:
  assumes "x \<le> y"
  shows "rne x \<le> rne y"
proof (cases "\<lfloor>x\<rfloor> = \<lfloor>y\<rfloor>")
  case True
  from assms have "x - of_int \<lfloor>x\<rfloor> \<le> y - of_int \<lfloor>x\<rfloor>" by simp
  then show ?thesis
    unfolding rne_def Let_def True [symmetric] by auto
next
  case False
  with assms have "\<lfloor>x\<rfloor> + 1 \<le> \<lfloor>y\<rfloor>" using floor_mono [OF assms] by linarith
  moreover have "rne x \<le> \<lfloor>x\<rfloor> + 1" using rne_cases [of x] by auto
  moreover have "\<lfloor>y\<rfloor> \<le> rne y" using rne_cases [of y] by auto
  ultimately show ?thesis by linarith
qed

lemma rne_ge: "of_int a \<le> x \<Longrightarrow> a \<le> rne x"
  using rne_mono [of "of_int a" x] by (simp add: rne_of_int)

lemma rne_le: "x \<le> of_int b \<Longrightarrow> rne x \<le> b"
  using rne_mono [of x "of_int b"] by (simp add: rne_of_int)

lemma two_powi_pos: "0 < (2::real) powi e"
  by (simp add: zero_less_power_int)

lemma two_powi_Suc: "(2::real) powi (e + 1) = 2 * 2 powi e"
  by (simp add: power_int_add [of 2 e 1])

lemma two_powi_le: "a \<le> b \<Longrightarrow> (2::real) powi a \<le> 2 powi b"
  by (rule power_int_increasing) simp_all

lemma two_powi_less_D: "(2::real) powi a < 2 powi b \<Longrightarrow> a < b"
  using two_powi_le [of b a] by (cases "a < b") simp_all

lemma expo_up_bounds: "1 \<le> x \<Longrightarrow> 2 powi expo_up x \<le> x \<and> x < 2 powi (expo_up x + 1)"
proof (induction x rule: expo_up.induct)
  case (1 x)
  show ?case
  proof (cases "x < 2")
    case True
    with "1.prems" show ?thesis by (simp add: expo_up.simps [of x])
  next
    case False
    then have "1 \<le> x / 2" by simp
    with "1.IH" False have ih: "2 powi expo_up (x / 2) \<le> x / 2 \<and> x / 2 < 2 powi (expo_up (x / 2) + 1)"
      by simp
    have e: "expo_up x = expo_up (x / 2) + 1" using False by (simp add: expo_up.simps [of x])
    note p1 = two_powi_Suc [of "expo_up (x / 2)"]
    note p2 = two_powi_Suc [of "expo_up (x / 2) + 1"]
    from ih p1 p2 show ?thesis unfolding e by linarith
  qed
qed

lemma expo_down_bounds:
  "0 < x \<Longrightarrow> x < 1 \<Longrightarrow> 2 powi expo_down x \<le> x \<and> x < 2 powi (expo_down x + 1)"
proof (induction x rule: expo_down.induct)
  case (1 x)
  have step: "expo_down x = expo_down (2 * x) - 1"
    using "1.prems" by (simp add: expo_down.simps [of x])
  show ?case
  proof (cases "2 * x < 1")
    case True
    with "1.IH" "1.prems"
    have ih: "2 powi expo_down (2 * x) \<le> 2 * x \<and> 2 * x < 2 powi (expo_down (2 * x) + 1)"
      by simp
    have "(2::real) powi expo_down (2 * x) = 2 * 2 powi (expo_down (2 * x) - 1)"
      using two_powi_Suc [of "expo_down (2 * x) - 1"] by simp
    with ih show ?thesis unfolding step by (simp add: two_powi_Suc)
  next
    case False
    then have "expo_down (2 * x) = 0" by (simp add: expo_down.simps [of "2 * x"])
    with False "1.prems" show ?thesis unfolding step by (simp add: power_int_minus)
  qed
qed

lemma expo_bounds: "0 < x \<Longrightarrow> 2 powi expo x \<le> x \<and> x < 2 powi (expo x + 1)"
  using expo_up_bounds [of x] expo_down_bounds [of x] by (cases "1 \<le> x") (simp_all add: expo_def)

lemma expo_unique:
  assumes "2 powi e \<le> x" and "x < 2 powi (e + 1)"
  shows "expo x = e"
proof -
  have pos: "0 < x" using assms(1) two_powi_pos [of e] by linarith
  note b = expo_bounds [OF pos]
  have "2 powi e < (2::real) powi (expo x + 1)" using assms(1) b by linarith
  then have 1: "e < expo x + 1" by (rule two_powi_less_D)
  have "2 powi expo x < (2::real) powi (e + 1)" using assms(2) b by linarith
  then have 2: "expo x < e + 1" by (rule two_powi_less_D)
  from 1 2 show ?thesis by simp
qed

lemma expo_range:
  assumes "2 powi a \<le> x" and "x < 2 powi b"
  shows "a \<le> expo x \<and> expo x < b"
proof -
  have pos: "0 < x" using assms(1) two_powi_pos [of a] by linarith
  note bd = expo_bounds [OF pos]
  have "2 powi a < (2::real) powi (expo x + 1)" using assms(1) bd by linarith
  then have 1: "a < expo x + 1" by (rule two_powi_less_D)
  have "2 powi expo x < (2::real) powi b" using assms(2) bd by linarith
  then have 2: "expo x < b" by (rule two_powi_less_D)
  from 1 2 show ?thesis by simp
qed

lemma two_powi_split: "(2::real) powi e = 2 ^ 52 * 2 powi (e - 52)"
  using power_int_add [of "2::real" "e - 52" 52] by simp

lemma round53_bounds:
  assumes "0 < x"
  shows "2 powi expo x \<le> round53 x \<and> round53 x \<le> 2 powi (expo x + 1)"
proof -
  define u :: real where "u = 2 powi (expo x - 52)"
  have u: "0 < u" by (simp add: u_def two_powi_pos)
  have lo: "2 powi expo x = 2 ^ 52 * u" unfolding u_def by (rule two_powi_split)
  have hi: "2 powi (expo x + 1) = 2 ^ 53 * u"
    using two_powi_Suc [of "expo x"] lo by simp
  note b = expo_bounds [OF assms]
  have "of_int (2 ^ 52) \<le> x / u" using b lo u by (simp add: pos_le_divide_eq)
  then have n1: "2 ^ 52 \<le> rne (x / u)" by (rule rne_ge)
  have "x / u \<le> of_int (2 ^ 53)" using b hi u by (simp add: pos_divide_le_eq)
  then have n2: "rne (x / u) \<le> 2 ^ 53" by (rule rne_le)
  have r: "round53 x = of_int (rne (x / u)) * u"
    using assms by (simp add: round53_def round_at_def u_def)
  from n1 have "(2::real) ^ 52 \<le> of_int (rne (x / u))"
    using of_int_le_iff [of "2 ^ 52" "rne (x / u)", where ?'a = real] by simp
  then have 1: "2 ^ 52 * u \<le> of_int (rne (x / u)) * u" using u by simp
  from n2 have "of_int (rne (x / u)) \<le> (2::real) ^ 53"
    using of_int_le_iff [of "rne (x / u)" "2 ^ 53", where ?'a = real] by simp
  then have 2: "of_int (rne (x / u)) * u \<le> 2 ^ 53 * u" using u by simp
  from 1 2 show ?thesis unfolding r lo hi by simp
qed

lemma round53_pos: "0 < x \<Longrightarrow> 0 < round53 x"
  using round53_bounds [of x] two_powi_pos [of "expo x"] by linarith

lemma round53_mono:
  assumes "0 < x" and "x \<le> y"
  shows "round53 x \<le> round53 y"
proof -
  have y: "0 < y" using assms by linarith
  note bx = expo_bounds [OF assms(1)] and bnd_y = expo_bounds [OF y]
  have "2 powi expo x < (2::real) powi (expo y + 1)" using bx bnd_y assms(2) by linarith
  then have le: "expo x \<le> expo y" using two_powi_less_D by fastforce
  show ?thesis
  proof (cases "expo x = expo y")
    case True
    have "x / 2 powi (expo y - 52) \<le> y / 2 powi (expo y - 52)"
      using assms(2) two_powi_pos [of "expo y - 52"] by (simp add: divide_right_mono)
    then have "rne (x / 2 powi (expo y - 52)) \<le> rne (y / 2 powi (expo y - 52))"
      by (rule rne_mono)
    then have "(of_int (rne (x / 2 powi (expo y - 52))) :: real) \<le> of_int (rne (y / 2 powi (expo y - 52)))"
      by simp
    then show ?thesis
      using assms(1) y True two_powi_pos [of "expo y - 52"]
      by (simp add: round53_def round_at_def mult_right_mono)
  next
    case False
    with le have "expo x + 1 \<le> expo y" by simp
    then have "(2::real) powi (expo x + 1) \<le> 2 powi expo y" by (rule two_powi_le)
    with round53_bounds [OF assms(1)] round53_bounds [OF y] show ?thesis by linarith
  qed
qed

lemma round53_double:
  assumes "0 < x"
  shows "round53 (2 * x) = 2 * round53 x"
proof -
  note b = expo_bounds [OF assms]
  have e: "expo (2 * x) = expo x + 1"
    by (rule expo_unique) (use b two_powi_Suc [of "expo x"] two_powi_Suc [of "expo x + 1"] in auto)
  have u: "(2::real) powi (expo x - 51) = 2 * 2 powi (expo x - 52)"
    using two_powi_Suc [of "expo x - 52"] by (simp add: algebra_simps)
  show ?thesis
    using assms by (simp add: round53_def round_at_def e u)
qed

lemma round53_idem:
  assumes "0 < x"
  shows "round53 (round53 x) = round53 x"
proof -
  define u :: real where "u = 2 powi (expo x - 52)"
  define n where "n = rne (x / u)"
  have u: "0 < u" by (simp add: u_def two_powi_pos)
  have r: "round53 x = of_int n * u"
    using assms by (simp add: round53_def round_at_def u_def n_def)
  have lo: "2 powi expo x = 2 ^ 52 * u" unfolding u_def by (rule two_powi_split)
  have hi: "2 powi (expo x + 1) = 2 ^ 53 * u"
    using two_powi_Suc [of "expo x"] lo by simp
  note b = round53_bounds [OF assms]
  have pos: "0 < round53 x" using assms by (rule round53_pos)
  from b have "of_int n * u \<le> 2 ^ 53 * u" unfolding r hi by simp
  then have "of_int n \<le> (2::real) ^ 53" using u by simp
  then have n53: "n \<le> 2 ^ 53"
    using of_int_le_iff [of n "2 ^ 53", where ?'a = real] by simp
  show ?thesis
  proof (cases "n = 2 ^ 53")
    case True
    then have top: "round53 x = 2 powi (expo x + 1)" unfolding r hi by simp
    have "(2::real) powi (expo x + 1) < 2 powi (expo x + 1 + 1)"
      by (rule power_int_strict_increasing) simp_all
    then have e: "expo (round53 x) = expo x + 1"
      unfolding top by (intro expo_unique) simp_all
    have "2 powi (expo x + 1) / 2 powi (expo x + 1 - 52) = (of_int (2 ^ 52) :: real)"
      using two_powi_split [of "expo x + 1"] two_powi_pos [of "expo x + 1 - 52"] by simp
    then have "rne (2 powi (expo x + 1) / 2 powi (expo x + 1 - 52)) = 2 ^ 52"
      by (simp only: rne_of_int)
    then have "round53 (2 powi (expo x + 1)) = 2 ^ 52 * 2 powi (expo x + 1 - 52)"
      using e pos unfolding top by (simp add: round53_def round_at_def)
    also have "\<dots> = 2 powi (expo x + 1)" by (rule two_powi_split [symmetric])
    finally show ?thesis unfolding top .
  next
    case False
    with n53 have "n < 2 ^ 53" by simp
    then have "of_int n < (2::real) ^ 53"
      using of_int_less_iff [of n "2 ^ 53", where ?'a = real] by simp
    then have "of_int n * u < 2 ^ 53 * u" using u by simp
    then have lt: "round53 x < 2 powi (expo x + 1)" unfolding r hi .
    have e: "expo (round53 x) = expo x"
      by (rule expo_unique) (use b lt in simp_all)
    have "round53 x / u = of_int n" unfolding r using u by simp
    then have rn: "rne (round53 x / u) = n" by (simp only: rne_of_int)
    have "round53 (round53 x) = round_at (expo (round53 x) - 52) (round53 x)"
      using pos by (simp add: round53_def [of "round53 x"])
    also have "\<dots> = of_int (rne (round53 x / u)) * u"
      unfolding e round_at_def u_def ..
    also have "\<dots> = of_int n * u" by (simp only: rn)
    also have "\<dots> = round53 x" by (simp only: r)
    finally show ?thesis .
  qed
qed

lemma round53_half: "round53 (1 / 2) = 1 / 2"
  by (simp add: round53_def round_at_def expo_def expo_down.simps rne_def)

lemma round64_normal:
  assumes "2 powi (- 1022) \<le> x" and "x < 2 powi 1023"
  shows "round64 x = Fin (round53 x)"
proof -
  have pos: "0 < x" using assms(1) two_powi_pos [of "- 1022"] by linarith
  from expo_range [OF assms] have e: "- 1022 \<le> expo x" "expo x < 1023" by simp_all
  then have q: "max (expo x - 52) (- 1074) = expo x - 52" by simp
  have "round53 x \<le> 2 powi (expo x + 1)" using round53_bounds [OF pos] by simp
  also have "\<dots> \<le> 2 powi 1023" by (rule two_powi_le) (use e in simp)
  also have "\<dots> < (2::real) powi 1024" by (rule power_int_strict_increasing) simp_all
  finally have small: "round53 x < 2 powi 1024" .
  have rp: "0 < round53 x" using pos by (rule round53_pos)
  have "round_at (expo x - 52) x = round53 x" using pos by (simp add: round53_def)
  with small rp pos q show ?thesis
    by (simp add: round64_def Let_def del: power_int_numeral)
qed

lemmas float_eval =
  round64_def round_at_def expo_def expo_up.simps expo_down.simps rne_def Let_def
  fmul64_def fadd64_def fsub64_def fsub_def fdiv64_def pressure_adjustment64_def
  match_probabilities64_def

lemma round64_literals:
  "round64 1.15 = Fin (5179139571476070 / 4503599627370496)"
  "round64 1.05 = Fin (4728779608739021 / 4503599627370496)"
  by (simp_all add: float_eval)

lemma round53_range:
  assumes "2 powi a \<le> x" and "x < 2 powi b"
  shows "2 powi a \<le> round53 x \<and> round53 x \<le> 2 powi b"
proof -
  have pos: "0 < x" using assms(1) two_powi_pos [of a] by linarith
  from expo_range [OF assms] have e: "a \<le> expo x" "expo x + 1 \<le> b" by simp_all
  note r = round53_bounds [OF pos]
  from e(1) have "(2::real) powi a \<le> 2 powi expo x" by (rule two_powi_le)
  moreover from e(2) have "(2::real) powi (expo x + 1) \<le> 2 powi b" by (rule two_powi_le)
  ultimately show ?thesis using r by linarith
qed

lemma round53_fixed_double:
  assumes "0 < a" and "round53 a = a"
  shows "round53 (2 * a) = 2 * a"
  using round53_double [OF assms(1)] assms(2) by simp

lemma quotient_order:
  fixes lo hi :: int
  assumes range: "- 1022 \<le> lo" "- 1022 \<le> lo - (hi + 2)" "hi + 2 \<le> 1023"
    and a1: "2 powi lo \<le> A1" "A1 \<le> 2 powi hi" "round53 A1 = A1"
    and a2: "2 powi lo \<le> A2" "A2 \<le> 2 powi hi" "round53 A2 = A2"
  shows "\<exists>p. fdiv64 (Fin A1) (fadd64 (Fin A1) (Fin A2)) = Fin p
     \<and> (A1 \<le> A2 \<longrightarrow> p \<le> 1 / 2) \<and> (A2 \<le> A1 \<longrightarrow> 1 / 2 \<le> p)"
proof -
  have p1: "0 < A1" using a1(1) two_powi_pos [of lo] by linarith
  have p2: "0 < A2" using a2(1) two_powi_pos [of lo] by linarith
  have low: "(2::real) powi (- 1022) \<le> 2 powi lo" using range(1) by (rule two_powi_le)
  have h1: "(2::real) powi (hi + 1) = 2 * 2 powi hi" by (rule two_powi_Suc)
  have h2: "(2::real) powi (hi + 1 + 1) = 2 * 2 powi (hi + 1)" by (rule two_powi_Suc)
  have h2': "(2::real) powi (hi + 2) = 2 * 2 powi (hi + 1)" using h2 by (simp add: add.assoc)
  have top: "(2::real) powi (hi + 2) \<le> 2 powi 1023" using range(3) by (rule two_powi_le)
  \<comment> \<open>the sum\<close>
  have s_lo: "2 powi (- 1022) \<le> A1 + A2" using low a1(1) p2 by linarith
  have s_lt: "A1 + A2 < 2 powi (hi + 2)"
    using a1(2) a2(2) h1 h2' two_powi_pos [of hi] by linarith
  then have s_hi: "A1 + A2 < 2 powi 1023" using top by linarith
  define S where "S = round53 (A1 + A2)"
  have sum: "fadd64 (Fin A1) (Fin A2) = Fin S"
    using round64_normal [OF s_lo s_hi] by (simp add: fadd64_def S_def)
  have "2 powi lo \<le> A1 + A2" using a1(1) p2 by linarith
  from round53_range [OF this s_lt] have S_rng: "2 powi lo \<le> S" "S \<le> 2 powi (hi + 2)"
    by (simp_all add: S_def)
  have "round53 A1 \<le> round53 (A1 + A2)" by (rule round53_mono) (use p1 p2 in simp_all)
  then have S_ge: "A1 \<le> S" by (simp add: S_def a1(3))
  have S_pos: "0 < S" using S_ge p1 by linarith
  \<comment> \<open>the quotient\<close>
  define Q where "Q = A1 / S"
  have Q_pos: "0 < Q" using p1 S_pos by (simp add: Q_def)
  have Q_le1: "Q \<le> 1" using S_ge S_pos by (simp add: Q_def)
  have "2 powi lo / 2 powi (hi + 2) \<le> A1 / S"
    by (rule frac_le) (use a1(1) p1 S_rng(2) S_pos in simp_all)
  moreover have "(2::real) powi (lo - (hi + 2)) = 2 powi lo / 2 powi (hi + 2)"
    by (rule power_int_diff) simp
  moreover have "(2::real) powi (- 1022) \<le> 2 powi (lo - (hi + 2))"
    using range(2) by (rule two_powi_le)
  ultimately have q_lo: "2 powi (- 1022) \<le> Q" unfolding Q_def by linarith
  have "(1::real) = 2 powi 0" by simp
  also have "\<dots> < (2::real) powi 1023" by (rule power_int_strict_increasing) simp_all
  finally have q_hi: "Q < 2 powi 1023" using Q_le1 by linarith
  have quot: "fdiv64 (Fin A1) (Fin S) = Fin (round53 Q)"
    using round64_normal [OF q_lo q_hi] S_pos by (simp add: fdiv64_def Q_def)
  have le: "round53 Q \<le> 1 / 2" if "A1 \<le> A2"
  proof -
    have "round53 (2 * A1) \<le> round53 (A1 + A2)"
      by (rule round53_mono) (use p1 that in simp_all)
    then have "2 * A1 \<le> S" by (simp add: S_def round53_fixed_double [OF p1 a1(3)])
    then have "Q \<le> 1 / 2" using S_pos by (simp add: Q_def pos_divide_le_eq)
    with Q_pos have "round53 Q \<le> round53 (1 / 2)" by (rule round53_mono)
    then show ?thesis by (simp add: round53_half)
  qed
  have ge: "1 / 2 \<le> round53 Q" if "A2 \<le> A1"
  proof -
    have "round53 (A1 + A2) \<le> round53 (2 * A1)"
      by (rule round53_mono) (use p1 p2 that in simp_all)
    then have "S \<le> 2 * A1" by (simp add: S_def round53_fixed_double [OF p1 a1(3)])
    then have "1 / 2 \<le> Q" using S_pos by (simp add: Q_def pos_le_divide_eq)
    then have "round53 (1 / 2) \<le> round53 Q" by (intro round53_mono) simp_all
    then show ?thesis by (simp add: round53_half)
  qed
  from sum quot le ge show ?thesis by auto
qed

lemma scaled_strength:
  fixes lo hi :: int
  assumes range: "- 1022 \<le> lo" "hi + 1 \<le> 1023"
    and m: "1 \<le> M" "M < 2"
    and s: "2 powi lo \<le> s" "s \<le> 2 powi hi"
  shows "fmul64 (Fin s) (Fin M) = Fin (round53 (s * M))
     \<and> 2 powi lo \<le> round53 (s * M) \<and> round53 (s * M) \<le> 2 powi (hi + 1)
     \<and> round53 (round53 (s * M)) = round53 (s * M)"
proof -
  have pos: "0 < s" using s(1) two_powi_pos [of lo] by linarith
  have "s * 1 \<le> s * M" using m(1) pos by (intro mult_left_mono) simp_all
  then have lo': "2 powi lo \<le> s * M" using s(1) by simp
  have "s * M < s * 2" using m(2) pos by (intro mult_strict_left_mono) simp_all
  then have hi': "s * M < 2 powi (hi + 1)" using s(2) two_powi_Suc [of hi] by linarith
  have "(2::real) powi (- 1022) \<le> 2 powi lo" using range(1) by (rule two_powi_le)
  then have n_lo: "2 powi (- 1022) \<le> s * M" using lo' by linarith
  have "(2::real) powi (hi + 1) \<le> 2 powi 1023" using range(2) by (rule two_powi_le)
  then have n_hi: "s * M < 2 powi 1023" using hi' by linarith
  have 1: "fmul64 (Fin s) (Fin M) = Fin (round53 (s * M))"
    using round64_normal [OF n_lo n_hi] by (simp add: fmul64_def)
  have "0 < s * M" using pos m(1) by (simp add: zero_less_mult_iff)
  then have 2: "round53 (round53 (s * M)) = round53 (s * M)" by (rule round53_idem)
  from 1 2 round53_range [OF lo' hi'] show ?thesis by simp
qed

lemma literal_multipliers:
  "(1::real) \<le> 5179139571476070 / 4503599627370496"
  "(5179139571476070 / 4503599627370496 :: real) < 2"
  "(1::real) \<le> 4728779608739021 / 4503599627370496"
  "(4728779608739021 / 4503599627370496 :: real) < 2"
  by simp_all

lemma adjusted_pair:
  fixes lo hi :: int
  assumes range: "- 1022 \<le> lo" "hi + 1 \<le> 1023"
    and s1: "round64 s1 = Fin s1" "2 powi lo \<le> s1" "s1 \<le> 2 powi hi"
    and s2: "round64 s2 = Fin s2" "2 powi lo \<le> s2" "s2 \<le> 2 powi hi"
  shows "\<exists>A1 A2. pressure_adjustment64 (Fin s1) overs_left = Fin A1
      \<and> pressure_adjustment64 (Fin s2) overs_left = Fin A2
      \<and> 2 powi lo \<le> A1 \<and> A1 \<le> 2 powi (hi + 1) \<and> round53 A1 = A1
      \<and> 2 powi lo \<le> A2 \<and> A2 \<le> 2 powi (hi + 1) \<and> round53 A2 = A2
      \<and> (s1 \<le> s2 \<longrightarrow> A1 \<le> A2) \<and> (s2 \<le> s1 \<longrightarrow> A2 \<le> A1)"
proof -
  have p1: "0 < s1" using s1(2) two_powi_pos [of lo] by linarith
  have p2: "0 < s2" using s2(2) two_powi_pos [of lo] by linarith
  have scaled: "\<exists>A1 A2. fmul64 (Fin s1) (Fin M) = Fin A1 \<and> fmul64 (Fin s2) (Fin M) = Fin A2
      \<and> 2 powi lo \<le> A1 \<and> A1 \<le> 2 powi (hi + 1) \<and> round53 A1 = A1
      \<and> 2 powi lo \<le> A2 \<and> A2 \<le> 2 powi (hi + 1) \<and> round53 A2 = A2
      \<and> (s1 \<le> s2 \<longrightarrow> A1 \<le> A2) \<and> (s2 \<le> s1 \<longrightarrow> A2 \<le> A1)"
    if m: "1 \<le> M" "M < 2" for M
  proof -
    have mp: "0 < M" using m(1) by linarith
    have up: "round53 (s1 * M) \<le> round53 (s2 * M)" if "s1 \<le> s2"
      by (rule round53_mono) (use that p1 mp in simp_all)
    have down: "round53 (s2 * M) \<le> round53 (s1 * M)" if "s2 \<le> s1"
      by (rule round53_mono) (use that p2 mp in simp_all)
    from scaled_strength [OF range m s1(2,3)] scaled_strength [OF range m s2(2,3)] up down
    show ?thesis by blast
  qed
  have plain: "2 powi lo \<le> s \<and> s \<le> 2 powi (hi + 1) \<and> round53 s = s"
    if "round64 s = Fin s" "2 powi lo \<le> s" "s \<le> 2 powi hi" for s
  proof -
    have "(2::real) powi hi \<le> 2 powi (hi + 1)" by (rule two_powi_le) simp
    then have le: "s \<le> 2 powi (hi + 1)" using that(3) by linarith
    have "(2::real) powi (- 1022) \<le> 2 powi lo" using range(1) by (rule two_powi_le)
    then have n_lo: "2 powi (- 1022) \<le> s" using that(2) by linarith
    have "(2::real) powi (hi + 1) \<le> 2 powi 1023" using range(2) by (rule two_powi_le)
    moreover have "(2::real) powi hi < 2 powi (hi + 1)"
      by (rule power_int_strict_increasing) simp_all
    ultimately have n_hi: "s < 2 powi 1023" using that(3) by linarith
    from round64_normal [OF n_lo n_hi] that(1) have "round53 s = s" by simp
    with that(2) le show ?thesis by simp
  qed
  consider "overs_left \<le> 5" | "5 < overs_left" "overs_left \<le> 10" | "10 < overs_left"
    by linarith
  then show ?thesis
  proof cases
    case 1
    then have eq: "pressure_adjustment64 (Fin s) overs_left
        = fmul64 (Fin s) (Fin (5179139571476070 / 4503599627370496))" for s
      by (simp only: pressure_adjustment64_def if_True round64_literals)
    show ?thesis unfolding eq by (rule scaled [OF literal_multipliers(1,2)])
  next
    case 2
    then have c: "\<not> overs_left \<le> 5" by simp
    from 2 have eq: "pressure_adjustment64 (Fin s) overs_left
        = fmul64 (Fin s) (Fin (4728779608739021 / 4503599627370496))" for s
      by (simp only: pressure_adjustment64_def c if_False if_True round64_literals)
    show ?thesis unfolding eq by (rule scaled [OF literal_multipliers(3,4)])
  next
    case 3
    then have eq: "pressure_adjustment64 (Fin s) overs_left = Fin s" for s
      by (simp add: pressure_adjustment64_def)
    from plain [OF s1] plain [OF s2] show ?thesis unfolding eq by simp
  qed
qed

text \<open>
  C10, amended. For a number of overs from 1 to 20 and two float64 power indices between
  \<open>2 powi (- 500)\<close> and \<open>2 powi 500\<close>, the computed win probability of team 1 is
  finite; it is above one half only if team 1's power index is the larger one, below one
  half only if it is the smaller one, and exactly one half when the two indices are equal.
  Rounding never reverses the order of the two teams, but it can give one half to two
  indices that differ.
\<close>

theorem probability_order_never_reversed:
  assumes "1 \<le> overs_left" and "overs_left \<le> 20"
    and "round64 s1 = Fin s1" and "2 powi (- 500) \<le> s1" and "s1 \<le> 2 powi 500"
    and "round64 s2 = Fin s2" and "2 powi (- 500) \<le> s2" and "s2 \<le> 2 powi 500"
  shows "\<exists>prob1 prob2. match_probabilities64 (Fin s1) (Fin s2) overs_left = (Fin prob1, prob2)
     \<and> (1 / 2 < prob1 \<longrightarrow> s2 < s1) \<and> (prob1 < 1 / 2 \<longrightarrow> s1 < s2)
     \<and> (s1 = s2 \<longrightarrow> prob1 = 1 / 2)"
proof -
  have r1: "- 1022 \<le> (- 500 :: int)" "(500 :: int) + 1 \<le> 1023" by simp_all
  from adjusted_pair [OF r1 assms(3,4,5) assms(6,7,8), of overs_left]
  obtain A1 A2 where adj: "pressure_adjustment64 (Fin s1) overs_left = Fin A1"
      "pressure_adjustment64 (Fin s2) overs_left = Fin A2"
    and a1: "2 powi (- 500) \<le> A1" "A1 \<le> 2 powi (500 + 1)" "round53 A1 = A1"
    and a2: "2 powi (- 500) \<le> A2" "A2 \<le> 2 powi (500 + 1)" "round53 A2 = A2"
    and mono: "s1 \<le> s2 \<longrightarrow> A1 \<le> A2" "s2 \<le> s1 \<longrightarrow> A2 \<le> A1"
    by blast
  have r2: "- 1022 \<le> (- 500 :: int)" "- 1022 \<le> (- 500 :: int) - (500 + 1 + 2)"
    "(500 :: int) + 1 + 2 \<le> 1023" by simp_all
  from quotient_order [OF r2 a1 a2]
  obtain p where p: "fdiv64 (Fin A1) (fadd64 (Fin A1) (Fin A2)) = Fin p"
    and le: "A1 \<le> A2 \<longrightarrow> p \<le> 1 / 2" and ge: "A2 \<le> A1 \<longrightarrow> 1 / 2 \<le> p"
    by blast
  have eq: "match_probabilities64 (Fin s1) (Fin s2) overs_left = (Fin p, fsub64 (Fin 1) (Fin p))"
    by (simp add: match_probabilities64_def Let_def adj p)
  have 1: "s2 < s1" if "1 / 2 < p" using that le mono(1) by (cases "s1 \<le> s2") auto
  have 2: "s1 < s2" if "p < 1 / 2" using that ge mono(2) by (cases "s2 \<le> s1") auto
  have 3: "p = 1 / 2" if "s1 = s2" using that le ge mono by auto
  from eq 1 2 3 show ?thesis by blast
qed

theorem probability_order_never_reversed_witness:
  "(1::int) \<le> 3 \<and> (3::int) \<le> 20
   \<and> round64 1500.5 = Fin 1500.5 \<and> 2 powi (- 500) \<le> (1500.5::real) \<and> (1500.5::real) \<le> 2 powi 500
   \<and> round64 1200 = Fin 1200 \<and> 2 powi (- 500) \<le> (1200::real) \<and> (1200::real) \<le> 2 powi 500
   \<and> fst (match_probabilities64 (Fin 1500.5) (Fin 1200) 3)
       = Fin (1251185195495173 / 2251799813685248)
   \<and> (1 / 2 :: real) < 1251185195495173 / 2251799813685248
   \<and> (1200 :: real) < 1500.5"
proof -
  have h: "round64 1500.5 = Fin 1500.5" "2 powi (- 500) \<le> (1500.5::real)" "(1500.5::real) \<le> 2 powi 500"
    "round64 1200 = Fin 1200" "2 powi (- 500) \<le> (1200::real)" "(1200::real) \<le> 2 powi 500"
    by (simp_all add: float_eval)
  have e: "fst (match_probabilities64 (Fin 1500.5) (Fin 1200) 3)
       = Fin (1251185195495173 / 2251799813685248)"
    by (simp add: float_eval)
  have o: "(1::int) \<le> 3" "(3::int) \<le> 20" by simp_all
  from probability_order_never_reversed [OF o h]
  obtain prob1 prob2 where "match_probabilities64 (Fin 1500.5) (Fin 1200) 3 = (Fin prob1, prob2)"
    and "1 / 2 < prob1 \<longrightarrow> (1200 :: real) < 1500.5"
    by blast
  with e have "(1 / 2 :: real) < 1251185195495173 / 2251799813685248 \<longrightarrow> (1200 :: real) < 1500.5"
    by simp
  moreover have "(1 / 2 :: real) < 1251185195495173 / 2251799813685248" by simp
  ultimately have "(1200 :: real) < 1500.5" by blast
  with h e o show ?thesis by simp
qed

text \<open>
  C10 as stated fails in float64. The first power index is the larger of two neighbouring
  float64 values, and with 8 overs left the computed probability of each team is exactly
  one half: the two adjusted strengths differ in the last bit only, and their quotient by
  their sum rounds to one half.
\<close>

theorem probability_tie_counterexample:
  "round64 tie_s1 = Fin tie_s1 \<and> round64 tie_s2 = Fin tie_s2 \<and> 0 < tie_s2 \<and> tie_s2 < tie_s1
   \<and> match_probabilities64 (Fin tie_s1) (Fin tie_s2) 8 = (Fin (1 / 2), Fin (1 / 2))"
  by (simp add: tie_s1_def tie_s2_def float_eval)

section \<open>Role classification of a row\<close>

lemma lower_char_code:
  "is_ascii_upper c \<Longrightarrow> of_char (lower_char c) = (of_char c :: nat) + 32"
  "\<not> is_ascii_upper c \<Longrightarrow> lower_char c = c"
  by (cases c; auto simp: lower_char_def is_ascii_upper_def of_bool_def split: if_splits)+

lemma classification_examples:
  "str_lower ''Batting ALL-rounder'' = ''batting all-rounder''"
  "str_contains (str_lower ''Batting ALL-rounder'') ''all''"
  "str_contains (str_lower ''Overall Captain'') ''all''"
  "\<not> str_contains (str_lower ''Wicket Keeper'') ''all''"
  by (simp_all add: str_lower_def lower_char_def is_ascii_upper_def)




section \<open>The Aggregation Engine\<close>

lemma group_keys_set: "set (group_keys df) = country ` set df"
  by (simp add: group_keys_def)

lemma group_keys_distinct: "distinct (group_keys df)"
  by (simp add: group_keys_def)

lemma filter_eq_distinct: "distinct ks \<Longrightarrow> c \<in> set ks \<Longrightarrow> filter (\<lambda>k. k = c) ks = [c]"
  by (induction ks) (auto simp: filter_empty_conv)

lemma team_strength_map: "team_strength fdf = map (team_of fdf) (group_keys fdf)"
  by (simp add: team_strength_def fillna_rows_def merge_left_def team_strength_base_def
      team_of_def o_def)

lemma team_of_country: "t_country (team_of fdf c) = c"
  by (simp add: team_of_def add_power_index_def)

lemma team_strength_one_row:
  assumes "c \<in> country ` set fdf"
  shows "filter (\<lambda>t. t_country t = c) (team_strength fdf) = [team_of fdf c]"
proof -
  have "filter (\<lambda>t. t_country t = c) (team_strength fdf)
      = map (team_of fdf) (filter (\<lambda>k. k = c) (group_keys fdf))"
    by (simp add: team_strength_map filter_map o_def team_of_country)
  also have "filter (\<lambda>k. k = c) (group_keys fdf) = [c]"
    using assms by (intro filter_eq_distinct) (simp_all add: group_keys_distinct group_keys_set)
  finally show ?thesis by simp
qed

lemma map_of_ar_team:
  "map_of (ar_team fdf) c =
     (if c \<in> country ` set (ar_df fdf) then Some (group_mean allrounder_index (ar_df fdf) c) else None)"
proof -
  have "map_of (map (\<lambda>k. (k, f k)) ks) c = (if c \<in> set ks then Some (f c) else None)"
    for f :: "string \<Rightarrow> fval" and ks
    by (induction ks) auto
  then show ?thesis
    by (simp add: ar_team_def groupby_mean_def group_keys_set)
qed

lemma foldl_fadd_Fin: "foldl fadd (Fin a) (map Fin xs) = Fin (a + sum_list xs)"
  by (induction xs arbitrary: a) (simp_all add: add.assoc)

lemma mean_Fin: "xs \<noteq> [] \<Longrightarrow> mean (map Fin xs) = Fin (sum_list xs / real (length xs))"
  by (simp add: mean_def isna_def foldl_fadd_Fin filter_map o_def)

lemma power_index_team_of:
  "power_index (team_of fdf c) =
     fadd (fadd (fmul (Fin 0.5) (t_batting_impact (team_of fdf c)))
                (fmul (Fin 0.3) (t_bowling_impact (team_of fdf c))))
          (fmul (Fin 0.2) (t_allrounder_index (team_of fdf c)))"
  by (simp add: team_of_def add_power_index_def)

lemma team_of_cols:
  "t_batting_impact (team_of fdf c) = fillna (Fin 0) (group_mean batting_impact fdf c)"
  "t_bowling_impact (team_of fdf c) = fillna (Fin 0) (group_mean bowling_impact fdf c)"
  "t_allrounder_index (team_of fdf c) =
     fillna (Fin 0) (case map_of (ar_team fdf) c of None \<Rightarrow> NaN | Some ai \<Rightarrow> ai)"
  by (simp_all add: team_of_def add_power_index_def)

lemma group_mean_Fin:
  assumes "map col (filter (\<lambda>r. country r = c) df) = map Fin xs" and "xs \<noteq> []"
  shows "fillna (Fin 0) (group_mean col df c) = Fin (sum_list xs / real (length xs))"
  using assms by (simp add: group_mean_def mean_Fin fillna_def isna_def)

lemmas example_rows =
  example_df_def india_opener_def india_bowler_def australia_allrounder_def
  australia_batter_def india_zero_economy_def india_row_def

lemmas pipeline_defs =
  filtered_df_def feature_engineering_def add_metrics_def team_strength_def fillna_rows_def
  merge_left_def team_strength_base_def ar_team_def ar_df_def group_keys_def group_mean_def
  groupby_mean_def mean_def isna_def fillna_def add_power_index_def is_allrounder_def
  str_lower_def lower_char_def is_ascii_upper_def Let_def

lemma example_team_strength:
  "team_strength (feature_engineering (filtered_df [''India'', ''Australia''] example_df)) =
     [\<lparr>t_country = ''Australia'', t_batting_impact = Fin 2800, t_bowling_impact = Fin 1,
        t_allrounder_index = Fin 2160.8, power_index = Fin 1832.46\<rparr>,
      \<lparr>t_country = ''India'', t_batting_impact = Fin 3000, t_bowling_impact = Fin 2,
        t_allrounder_index = Fin 0, power_index = Fin 1500.6\<rparr>]"
  by (simp add: pipeline_defs example_rows)

lemma example_countries:
  "country ` set (feature_engineering (filtered_df [''India'', ''Australia''] example_df))
     = {''India'', ''Australia''}"
  by (auto simp: pipeline_defs example_rows)

text \<open>
  C2. Every team with a row in the filtered table is a selected team and has exactly one
  row in \<open>team_strength\<close>. When the team's impact values are finite, its
  \<open>batting_impact\<close> and \<open>bowling_impact\<close> are their arithmetic means, and
  \<open>power_index = 0.5 * batting_impact + 0.3 * bowling_impact + 0.2 * allrounder_index\<close>.
  The witness is the specification's example: means 3000 and 2.0 with an all-rounder index
  of 0 give 1500.6.
\<close>

theorem team_strength_means:
  assumes "c \<in> country ` set (feature_engineering (filtered_df teams df))"
  shows "c \<in> set teams \<and>
    (\<exists>t. filter (\<lambda>t. t_country t = c) (team_strength (feature_engineering (filtered_df teams df))) = [t]
      \<and> (\<forall>xs. map batting_impact (filter (\<lambda>r. country r = c) (feature_engineering (filtered_df teams df))) = map Fin xs
            \<longrightarrow> t_batting_impact t = Fin (sum_list xs / real (length xs)))
      \<and> (\<forall>ys. map bowling_impact (filter (\<lambda>r. country r = c) (feature_engineering (filtered_df teams df))) = map Fin ys
            \<longrightarrow> t_bowling_impact t = Fin (sum_list ys / real (length ys)))
      \<and> power_index t =
          fadd (fadd (fmul (Fin 0.5) (t_batting_impact t)) (fmul (Fin 0.3) (t_bowling_impact t)))
               (fmul (Fin 0.2) (t_allrounder_index t))
      \<and> (\<forall>b w a. t_batting_impact t = Fin b \<and> t_bowling_impact t = Fin w \<and> t_allrounder_index t = Fin a
            \<longrightarrow> power_index t = Fin (0.5 * b + 0.3 * w + 0.2 * a)))"
proof -
  define fdf where "fdf = feature_engineering (filtered_df teams df)"
  have c: "c \<in> country ` set fdf" using assms by (simp add: fdf_def)
  then have sel: "c \<in> set teams"
    by (auto simp: fdf_def feature_engineering_def filtered_df_def add_metrics_raw)
  let ?rows = "filter (\<lambda>r. country r = c) fdf"
  from c have ne: "?rows \<noteq> []" by (auto simp: filter_empty_conv)
  have one: "filter (\<lambda>t. t_country t = c) (team_strength fdf) = [team_of fdf c]"
    by (rule team_strength_one_row [OF c])
  have bat: "t_batting_impact (team_of fdf c) = Fin (sum_list xs / real (length xs))"
    if "map batting_impact ?rows = map Fin xs" for xs
  proof -
    from that ne have "xs \<noteq> []" by auto
    with that show ?thesis by (simp add: team_of_cols group_mean_Fin)
  qed
  have bowl: "t_bowling_impact (team_of fdf c) = Fin (sum_list ys / real (length ys))"
    if "map bowling_impact ?rows = map Fin ys" for ys
  proof -
    from that ne have "ys \<noteq> []" by auto
    with that show ?thesis by (simp add: team_of_cols group_mean_Fin)
  qed
  have pw: "power_index (team_of fdf c) = Fin (0.5 * b + 0.3 * w + 0.2 * a)"
    if "t_batting_impact (team_of fdf c) = Fin b \<and> t_bowling_impact (team_of fdf c) = Fin w
        \<and> t_allrounder_index (team_of fdf c) = Fin a" for b w a
    using that by (simp add: power_index_team_of)
  show ?thesis
    unfolding fdf_def [symmetric]
    using sel one bat bowl pw power_index_team_of [of fdf c] by blast
qed

theorem team_strength_means_witness:
  "''India'' \<in> country ` set (feature_engineering (filtered_df [''India'', ''Australia''] example_df))
   \<and> (\<exists>t. filter (\<lambda>t. t_country t = ''India'')
            (team_strength (feature_engineering (filtered_df [''India'', ''Australia''] example_df))) = [t]
        \<and> t_batting_impact t = Fin 3000 \<and> t_bowling_impact t = Fin 2.0
        \<and> t_allrounder_index t = Fin 0 \<and> power_index t = Fin 1500.6)"
proof -
  have mem: "''India'' \<in> country ` set (feature_engineering (filtered_df [''India'', ''Australia''] example_df))"
    by (simp add: example_countries)
  from team_strength_means [OF mem] obtain t where
    t: "filter (\<lambda>t. t_country t = ''India'')
          (team_strength (feature_engineering (filtered_df [''India'', ''Australia''] example_df))) = [t]"
    and pw: "\<forall>b w a. t_batting_impact t = Fin b \<and> t_bowling_impact t = Fin w \<and> t_allrounder_index t = Fin a
            \<longrightarrow> power_index t = Fin (0.5 * b + 0.3 * w + 0.2 * a)"
    by blast
  from t have cols: "t_batting_impact t = Fin 3000 \<and> t_bowling_impact t = Fin 2 \<and> t_allrounder_index t = Fin 0"
    by (auto simp: example_team_strength)
  with pw have "power_index t = Fin (0.5 * 3000 + 0.3 * 2 + 0.2 * 0)" by blast
  with mem t cols show ?thesis by simp
qed

lemma fillna_not_nan: "fillna (Fin 0) v \<noteq> NaN"
  by (simp add: fillna_def isna_def)

lemma ar_rows_empty_iff:
  "(filter (\<lambda>r. country r = c) (ar_df fdf) = []) = (c \<notin> country ` set (ar_df fdf))"
  by (auto simp: filter_empty_conv)

text \<open>
  C5. The \<open>allrounder_index\<close> of a team's row is never missing. It is 0 when the team
  has no row classified as an all-rounder, and it is the arithmetic mean of the
  \<open>allrounder_index\<close> of the team's all-rounder rows (and of no other row) when these
  values are finite.
\<close>

theorem allrounder_index_default:
  assumes "c \<in> country ` set (feature_engineering (filtered_df teams df))"
  shows "\<exists>t. filter (\<lambda>t. t_country t = c) (team_strength (feature_engineering (filtered_df teams df))) = [t]
      \<and> t_allrounder_index t \<noteq> NaN
      \<and> (filter (\<lambda>r. country r = c) (ar_df (feature_engineering (filtered_df teams df))) = []
            \<longrightarrow> t_allrounder_index t = Fin 0)
      \<and> (\<forall>xs. xs \<noteq> [] \<and>
              map allrounder_index
                (filter (\<lambda>r. country r = c) (ar_df (feature_engineering (filtered_df teams df)))) = map Fin xs
            \<longrightarrow> t_allrounder_index t = Fin (sum_list xs / real (length xs)))"
proof -
  define fdf where "fdf = feature_engineering (filtered_df teams df)"
  have c: "c \<in> country ` set fdf" using assms by (simp add: fdf_def)
  let ?ar = "filter (\<lambda>r. country r = c) (ar_df fdf)"
  have one: "filter (\<lambda>t. t_country t = c) (team_strength fdf) = [team_of fdf c]"
    by (rule team_strength_one_row [OF c])
  have nn: "t_allrounder_index (team_of fdf c) \<noteq> NaN"
    by (simp add: team_of_cols fillna_not_nan)
  have none: "t_allrounder_index (team_of fdf c) = Fin 0" if "?ar = []"
    using that by (simp add: team_of_cols map_of_ar_team ar_rows_empty_iff fillna_def isna_def)
  have some: "t_allrounder_index (team_of fdf c) = Fin (sum_list xs / real (length xs))"
    if "xs \<noteq> [] \<and> map allrounder_index ?ar = map Fin xs" for xs
  proof -
    from that have "?ar \<noteq> []" by auto
    then have "c \<in> country ` set (ar_df fdf)" by (simp add: ar_rows_empty_iff)
    with that show ?thesis
      by (simp add: team_of_cols map_of_ar_team group_mean_Fin)
  qed
  show ?thesis
    unfolding fdf_def [symmetric] using one nn none some by blast
qed

lemma example_ar_rows:
  "filter (\<lambda>r. country r = ''India'')
        (ar_df (feature_engineering (filtered_df [''India'', ''Australia''] example_df))) = []"
  "map allrounder_index (filter (\<lambda>r. country r = ''Australia'')
        (ar_df (feature_engineering (filtered_df [''India'', ''Australia''] example_df)))) = map Fin [2160.8]"
  by (simp_all add: pipeline_defs example_rows)

theorem allrounder_index_default_witness:
  "''India'' \<in> country ` set (feature_engineering (filtered_df [''India'', ''Australia''] example_df))
   \<and> ''Australia'' \<in> country ` set (feature_engineering (filtered_df [''India'', ''Australia''] example_df))
   \<and> filter (\<lambda>r. country r = ''India'')
        (ar_df (feature_engineering (filtered_df [''India'', ''Australia''] example_df))) = []
   \<and> map allrounder_index (filter (\<lambda>r. country r = ''Australia'')
        (ar_df (feature_engineering (filtered_df [''India'', ''Australia''] example_df)))) = map Fin [2160.8]
   \<and> map t_allrounder_index
        (team_strength (feature_engineering (filtered_df [''India'', ''Australia''] example_df)))
       = [Fin 2160.8, Fin 0]"
  using allrounder_index_default [of "''India''" "[''India'', ''Australia'']" example_df]
    allrounder_index_default [of "''Australia''" "[''India'', ''Australia'']" example_df]
  by (simp add: example_countries example_team_strength example_ar_rows)

section \<open>Rows with a zero economy\<close>

lemma fadd_no_ninf_nan:
  assumes "a \<noteq> NInf" "a \<noteq> NaN" "b \<noteq> NInf" "b \<noteq> NaN"
  shows "fadd a b \<noteq> NInf \<and> fadd a b \<noteq> NaN \<and> (a = PInf \<or> b = PInf \<longrightarrow> fadd a b = PInf)"
  using assms by (cases a; cases b) simp_all

lemma foldl_fadd_PInf:
  assumes "acc \<noteq> NInf" "acc \<noteq> NaN" "\<forall>v \<in> set xs. v \<noteq> NInf \<and> v \<noteq> NaN"
    and "acc = PInf \<or> PInf \<in> set xs"
  shows "foldl fadd acc xs = PInf"
  using assms
proof (induction xs arbitrary: acc)
  case Nil
  then show ?case by simp
next
  case (Cons x xs)
  from Cons.prems have x: "x \<noteq> NInf" "x \<noteq> NaN" by simp_all
  note step = fadd_no_ninf_nan [OF Cons.prems(1,2) x]
  have "fadd acc x = PInf \<or> PInf \<in> set xs"
    using Cons.prems(4) step by auto
  with Cons.IH [of "fadd acc x"] step Cons.prems(3) show ?case by simp
qed

lemma mean_PInf:
  assumes "\<forall>v \<in> set vs. v \<noteq> NInf" and "PInf \<in> set vs"
  shows "mean vs = PInf"
proof -
  let ?xs = "filter (\<lambda>v. \<not> isna v) vs"
  have mem: "PInf \<in> set ?xs" using assms(2) by (simp add: isna_def)
  then have ne: "?xs \<noteq> []" by (auto simp: filter_empty_conv)
  have ok: "\<forall>v \<in> set ?xs. v \<noteq> NInf \<and> v \<noteq> NaN" using assms(1) by (simp add: isna_def)
  have sum: "foldl fadd (Fin 0) ?xs = PInf"
    by (rule foldl_fadd_PInf) (use ok mem in simp_all)
  have "mean vs = fdiv (foldl fadd (Fin 0) ?xs) (Fin (real (length ?xs)))"
    unfolding mean_def Let_def using ne by (simp only: if_False)
  also have "\<dots> = PInf" unfolding sum by simp
  finally show ?thesis .
qed

lemma bowling_impact_nonneg:
  assumes "wickets q = Fin w" "0 \<le> w" "economy q = Fin e" "0 \<le> e"
  shows "bowling_impact (add_metrics q) \<noteq> NInf"
    and "e = 0 \<Longrightarrow> 0 < w \<Longrightarrow> bowling_impact (add_metrics q) = PInf"
  using assms by (auto simp: add_metrics_cols inf_times_def)

text \<open>
  C8, as the script has it. The division of line 56 is not guarded and no row is left out
  of the means: a row with economy 0 and a positive number of wickets has the bowling impact
  \<open>+inf\<close>, and when the other rows of its team have finite, non-negative wickets and
  economy, the team's mean bowling impact is \<open>+inf\<close> as well (\<open>fillna(0)\<close> leaves
  it alone).
\<close>

theorem zero_economy_row_enters_mean:
  assumes "r \<in> set (filtered_df teams df)"
    and "economy r = Fin 0" and "wickets r = Fin w" and "0 < w"
    and "\<forall>q \<in> set (filtered_df teams df). country q = country r \<longrightarrow>
           (\<exists>w' e'. wickets q = Fin w' \<and> 0 \<le> w' \<and> economy q = Fin e' \<and> 0 \<le> e')"
  shows "add_metrics r \<in> set (feature_engineering (filtered_df teams df))
     \<and> bowling_impact (add_metrics r) = PInf
     \<and> (\<exists>t. filter (\<lambda>t. t_country t = country r)
               (team_strength (feature_engineering (filtered_df teams df))) = [t]
          \<and> t_bowling_impact t = PInf)"
proof -
  define fdf where "fdf = feature_engineering (filtered_df teams df)"
  have mem: "add_metrics r \<in> set fdf"
    using assms(1) by (simp add: fdf_def feature_engineering_def)
  have inf: "bowling_impact (add_metrics r) = PInf"
    using bowling_impact_nonneg(2) [of r w 0] assms(2,3,4) by simp
  let ?vs = "map bowling_impact (filter (\<lambda>m. country m = country r) fdf)"
  have in_vs: "PInf \<in> set ?vs"
    using mem inf by (force simp: add_metrics_raw)
  have no_ninf: "\<forall>v \<in> set ?vs. v \<noteq> NInf"
  proof
    fix v assume "v \<in> set ?vs"
    then obtain q where q: "q \<in> set (filtered_df teams df)" "country q = country r"
      and v: "v = bowling_impact (add_metrics q)"
      by (auto simp: fdf_def feature_engineering_def add_metrics_raw)
    from assms(5) q obtain w' e' where "wickets q = Fin w'" "0 \<le> w'" "economy q = Fin e'" "0 \<le> e'"
      by blast
    then show "v \<noteq> NInf" unfolding v by (rule bowling_impact_nonneg(1))
  qed
  have "group_mean bowling_impact fdf (country r) = PInf"
    unfolding group_mean_def by (rule mean_PInf [OF no_ninf in_vs])
  then have col: "t_bowling_impact (team_of fdf (country r)) = PInf"
    by (simp add: team_of_cols fillna_def isna_def)
  have "country r \<in> country ` set fdf"
    using mem by (force simp: add_metrics_raw)
  then have "filter (\<lambda>t. t_country t = country r) (team_strength fdf) = [team_of fdf (country r)]"
    by (rule team_strength_one_row)
  with mem inf col show ?thesis unfolding fdf_def by blast
qed

theorem zero_economy_row_enters_mean_witness:
  "india_zero_economy \<in> set (filtered_df [''India''] [india_row, india_zero_economy])
   \<and> economy india_zero_economy = Fin 0 \<and> wickets india_zero_economy = Fin 1 \<and> (0::real) < 1
   \<and> bowling_impact (add_metrics india_zero_economy) = PInf
   \<and> (\<exists>t. filter (\<lambda>t. t_country t = ''India'')
             (team_strength (feature_engineering (filtered_df [''India''] [india_row, india_zero_economy]))) = [t]
        \<and> t_bowling_impact t = PInf)"
proof -
  have 1: "india_zero_economy \<in> set (filtered_df [''India''] [india_row, india_zero_economy])"
    by (simp add: filtered_df_def example_rows)
  have 2: "economy india_zero_economy = Fin 0" "wickets india_zero_economy = Fin 1" "(0::real) < 1"
    by (simp_all add: example_rows)
  have 3: "\<forall>q \<in> set (filtered_df [''India''] [india_row, india_zero_economy]).
      country q = country india_zero_economy \<longrightarrow>
        (\<exists>w' e'. wickets q = Fin w' \<and> 0 \<le> w' \<and> economy q = Fin e' \<and> 0 \<le> e')"
    by (simp add: filtered_df_def example_rows)
  have c: "country india_zero_economy = ''India''" by (simp add: example_rows)
  from zero_economy_row_enters_mean [OF 1 2 3] 1 2 show ?thesis
    unfolding c by blast
qed

text \<open>
  The claim of the specification, that such a row is kept out of the team's mean, fails on
  a team of two rows: with the zero-economy row the mean bowling impact is \<open>+inf\<close>,
  while the mean of the remaining row alone is 2.
\<close>

theorem zero_economy_counterexample:
  "economy india_zero_economy = Fin 0
   \<and> map t_bowling_impact
       (team_strength (feature_engineering (filtered_df [''India''] [india_row, india_zero_economy]))) = [PInf]
   \<and> map t_bowling_impact
       (team_strength (feature_engineering (filtered_df [''India''] [india_row]))) = [Fin 2]"
  by (simp add: pipeline_defs example_rows inf_times_def)

section \<open>Rankings\<close>

lemma fle_refl: "v \<noteq> NaN \<Longrightarrow> fle v v"
  by (cases v) simp_all

lemma fle_total: "a \<noteq> NaN \<Longrightarrow> b \<noteq> NaN \<Longrightarrow> fle a b \<or> fle b a"
  by (cases a; cases b) auto

lemma fle_trans: "fle a b \<Longrightarrow> fle b c \<Longrightarrow> fle a c"
  by (cases a; cases b; cases c) auto

lemma fle_not_nan: "fle a b \<Longrightarrow> a \<noteq> NaN \<and> b \<noteq> NaN"
  by (cases a; cases b) auto


lemma desc_before_total: "desc_before a b \<or> desc_before b a"
  using fle_total [of a b] by (auto simp: desc_before_def isna_def)

lemma fle_NaN_right: "fle c NaN = False"
  by (cases c) simp_all

lemma desc_before_trans: "desc_before a b \<Longrightarrow> desc_before b c \<Longrightarrow> desc_before a c"
  using fle_trans [of c b a] fle_not_nan [of b a]
  by (auto simp: desc_before_def isna_def fle_NaN_right)




lemma not_fless: "a \<noteq> NaN \<Longrightarrow> b \<noteq> NaN \<Longrightarrow> \<not> fless a b \<Longrightarrow> fle b a"
  using fle_total [of a b] by (auto simp: fless_def)

lemma mset_insertion_shift: "mset (insertion_shift key x rs) = add_mset x (mset rs)"
  by (induction rs) auto


lemma sorted_insertion_shift:
  assumes "key x \<noteq> NaN" and "\<forall>y \<in> set rs. key y \<noteq> NaN"
    and "sorted_wrt (\<lambda>a b. fle (key b) (key a)) rs"
  shows "sorted_wrt (\<lambda>a b. fle (key b) (key a)) (insertion_shift key x rs)"
  using assms(2,3)
proof (induction rs)
  case Nil
  then show ?case by simp
next
  case (Cons y ys)
  show ?case
  proof (cases "fless (key x) (key y)")
    case True
    then have "fle (key x) (key y)" by (simp add: fless_def)
    moreover have "set (insertion_shift key x ys) = insert x (set ys)"
      by (simp add: mset_insertion_shift flip: set_mset_mset)
    ultimately show ?thesis using True Cons by auto
  next
    case False
    with assms(1) Cons.prems have "fle (key y) (key x)" by (intro not_fless) simp_all
    with False Cons.prems show ?thesis by (auto intro: fle_trans)
  qed
qed

lemma foldl_shift_mset:
  "mset (foldl (\<lambda>sorted x. insertion_shift key x sorted) acc xs) = mset acc + mset xs"
  by (induction xs arbitrary: acc) (simp_all add: mset_insertion_shift)


lemma foldl_shift_sorted:
  assumes "\<forall>y \<in> set xs. key y \<noteq> NaN" and "\<forall>y \<in> set acc. key y \<noteq> NaN"
    and "sorted_wrt (\<lambda>a b. fle (key b) (key a)) acc"
  shows "sorted_wrt (\<lambda>a b. fle (key b) (key a))
           (foldl (\<lambda>sorted x. insertion_shift key x sorted) acc xs)"
  using assms
proof (induction xs arbitrary: acc)
  case Nil
  then show ?case by simp
next
  case (Cons x xs)
  have "set (insertion_shift key x acc) = insert x (set acc)"
    by (simp add: mset_insertion_shift flip: set_mset_mset)
  with Cons.prems have "\<forall>y \<in> set (insertion_shift key x acc). key y \<noteq> NaN" by simp
  moreover have "sorted_wrt (\<lambda>a b. fle (key b) (key a)) (insertion_shift key x acc)"
    by (rule sorted_insertion_shift) (use Cons.prems in simp_all)
  ultimately show ?case using Cons.IH Cons.prems(1) by simp
qed

lemma insertion_argsort_mset: "mset (insertion_argsort key xs) = mset xs"
  by (simp add: insertion_argsort_def foldl_shift_mset)


lemma insertion_argsort_sorted:
  assumes "\<forall>y \<in> set xs. key y \<noteq> NaN"
  shows "sorted_wrt (\<lambda>a b. fle (key a) (key b)) (insertion_argsort key xs)"
  using foldl_shift_sorted [OF assms, of "[]"]
  by (simp add: insertion_argsort_def sorted_wrt_rev)

lemma nargsort_desc_small:
  assumes "length xs \<le> 16"
  shows "nargsort_desc large_sort key xs
     = rev (insertion_argsort key (rev (filter (\<lambda>x. \<not> isna (key x)) xs)))
       @ filter (\<lambda>x. isna (key x)) xs"
proof -
  have "length (filter (\<lambda>x. \<not> isna (key x)) xs) \<le> length xs" by (rule length_filter_le)
  with assms have "length (filter (\<lambda>x. \<not> isna (key x)) xs) \<le> 16" by linarith
  then show ?thesis
    by (simp add: nargsort_desc_def argsort_quicksort_def Let_def)
qed

lemma nargsort_desc_sorts:
  assumes "length xs \<le> 16"
  shows "sorts_descending key xs (nargsort_desc large_sort key xs)"
proof -
  let ?good = "filter (\<lambda>x. \<not> isna (key x)) xs"
  let ?bad = "filter (\<lambda>x. isna (key x)) xs"
  let ?asc = "insertion_argsort key (rev ?good)"
  have m: "mset (rev ?asc @ ?bad) = mset xs"
    by (simp add: insertion_argsort_mset)
  have "\<forall>y \<in> set (rev ?good). key y \<noteq> NaN" by (simp add: isna_def)
  then have asc: "sorted_wrt (\<lambda>a b. fle (key a) (key b)) ?asc" by (rule insertion_argsort_sorted)
  then have "sorted_wrt (\<lambda>a b. fle (key b) (key a)) (rev ?asc)" by (simp add: sorted_wrt_rev)
  then have 1: "sorted_wrt (\<lambda>a b. desc_before (key a) (key b)) (rev ?asc)"
    by (rule sorted_wrt_mono_rel [rotated]) (simp add: desc_before_def)
  have 2: "sorted_wrt (\<lambda>a b. desc_before (key a) (key b)) ?bad"
    by (rule sorted_wrt_mono_rel [of _ "\<lambda>_ _. True"]) (simp_all add: desc_before_def)
  have 3: "\<forall>a \<in> set (rev ?asc). \<forall>b \<in> set ?bad. desc_before (key a) (key b)"
    by (simp add: desc_before_def)
  from 1 2 3 have "sorted_wrt (\<lambda>a b. desc_before (key a) (key b)) (rev ?asc @ ?bad)"
    by (simp add: sorted_wrt_append)
  with m show ?thesis
    unfolding sorts_descending_def nargsort_desc_small [OF assms] by simp
qed









section \<open>The empty selection\<close>

lemma sorts_descending_Nil: "sorts_descending key [] ys \<Longrightarrow> ys = []"
  by (simp add: sorts_descending_def)

text \<open>
  C7. With no team selected the Filter Stage gives the empty table, and so do the feature
  engineering and \<open>team_strength\<close>; but \<^verbatim>\<open>.iloc[0]\<close> of line 166 then raises
  IndexError, so the Overview does not end with an empty result. The bar charts (line 82)
  and the simulation (line 267) raise in the same way on the empty table.
\<close>

theorem empty_selection_raises:
  assumes "sorts_descending power_index [] (sort_values power_index [])"
    and "sorts_descending snd [] (sort_bars snd [])"
  shows "filtered_df [] df = []
     \<and> feature_engineering (filtered_df [] df) = []
     \<and> team_strength (feature_engineering (filtered_df [] df)) = []
     \<and> best_team sort_values (team_strength (feature_engineering (filtered_df [] df))) = Inl IndexError
     \<and> overview sort_values [] df = Inl IndexError
     \<and> team_bar_chart sort_bars (feature_engineering (filtered_df [] df)) metric = Inl IndexError
     \<and> simulation (team_strength (feature_engineering (filtered_df [] df))) team1 team2 overs_left
         = Inl IndexError"
proof -
  have f: "filtered_df [] df = []" by (simp add: filtered_df_def)
  have e: "feature_engineering [] = []" by (simp add: feature_engineering_def)
  have k: "group_keys [] = []" by (simp add: group_keys_def)
  have t: "team_strength [] = []" by (simp add: team_strength_map k)
  have g: "groupby_mean metric [] = []" by (simp add: groupby_mean_def k)
  from assms(1) have s1: "sort_values power_index [] = []" by (rule sorts_descending_Nil)
  from assms(2) have s2: "sort_bars snd [] = []" by (rule sorts_descending_Nil)
  have b: "best_team sort_values [] = Inl IndexError"
    by (simp add: best_team_def s1 iloc0_def)
  have o: "overview sort_values [] df = Inl IndexError"
    by (simp add: overview_def f e t b)
  have c: "team_bar_chart sort_bars [] metric = Inl IndexError"
    by (simp add: team_bar_chart_def g s2 iloc0_def)
  have m: "simulation [] team1 team2 overs_left = Inl IndexError"
    by (simp add: simulation_def lookup_power_index_def iloc0_def)
  show ?thesis by (simp add: f e t b o c m)
qed

theorem empty_selection_raises_witness:
  "sorts_descending power_index [] (nargsort_desc insertion_argsort power_index [])
   \<and> sorts_descending snd ([] :: (string \<times> fval) list) (nargsort_desc insertion_argsort snd [])
   \<and> filtered_df [] example_df = []
   \<and> team_strength (feature_engineering (filtered_df [] example_df)) = []
   \<and> overview (nargsort_desc insertion_argsort) [] example_df = Inl IndexError"
proof -
  have h1: "sorts_descending power_index [] (nargsort_desc insertion_argsort power_index [])"
    by (rule nargsort_desc_sorts) simp
  have h2: "sorts_descending snd ([] :: (string \<times> fval) list) (nargsort_desc insertion_argsort snd [])"
    by (rule nargsort_desc_sorts) simp
  from empty_selection_raises
    [of "nargsort_desc insertion_argsort" "nargsort_desc insertion_argsort" example_df, OF h1 h2] h1 h2
  show ?thesis by blast
qed

end
